theory Spec2Isabelle
  imports Main "HOL-Library.Sublist"
begin

section \<open>Values, errors and the JSON frames\<close>

text \<open>
  The program is one Python module, \<^verbatim>\<open>home-assistant-streamdeck-yaml.py\<close>. Frames on the
  websocket are JSON texts; after \<^verbatim>\<open>json.loads\<close> they are Python values. A JSON object is
  kept as the list of its items (a parsed object has no duplicate key), a JSON number as
  an integer: numbers with a fractional part are outside this development.
\<close>

datatype json =
    JNull
  | JBool bool
  | JNum int
  | JStr string
  | JArr "json list"
  | JObj "(string \<times> json) list"

text \<open>
  The exceptions the module can meet. \<open>OtherError\<close> stands for the failures of the
  collaborating libraries (Pillow, requests, cairosvg, Jinja2, websockets) that the
  module neither raises nor catches by name.
\<close>

datatype error =
    KeyError
  | TypeError
  | ValueError
  | IndexError
  | JSONDecodeError
  | ConnectionResetError
  | RuntimeError
  | OtherError string

text \<open>
  An operation that waits on the websocket has three ways to end: it returns, it raises,
  or it stays blocked in \<^verbatim>\<open>recv()\<close> because no further frame arrives.
\<close>

datatype 'a outcome = Returned 'a | Raised error | Blocked

text \<open>\<^verbatim>\<open>obj[key]\<close> with a string key: only a dict can be subscripted by a string.\<close>

definition py_getitem :: "json \<Rightarrow> string \<Rightarrow> error + json" where
  "py_getitem obj k =
     (case obj of
        JObj items \<Rightarrow> (case map_of items k of None \<Rightarrow> Inl KeyError | Some v \<Rightarrow> Inr v)
      | _ \<Rightarrow> Inl TypeError)"

text \<open>
  Iterating a value, as the comprehension in \<^verbatim>\<open>get_states\<close> does: a list gives its
  elements, a dict its keys, a string its characters; the other values are not iterable.
\<close>

definition py_iter :: "json \<Rightarrow> error + json list" where
  "py_iter v =
     (case v of
        JArr xs \<Rightarrow> Inr xs
      | JObj items \<Rightarrow> Inr (map (\<lambda>kv. JStr (fst kv)) items)
      | JStr s \<Rightarrow> Inr (map (\<lambda>c. JStr [c]) s)
      | _ \<Rightarrow> Inl TypeError)"

text \<open>
  Dictionary keys. Lists and dicts are unhashable (\<^verbatim>\<open>TypeError\<close>); \<^verbatim>\<open>True\<close> and \<^verbatim>\<open>1\<close>
  (\<^verbatim>\<open>False\<close> and \<^verbatim>\<open>0\<close>) are the same key.
\<close>

fun hashable :: "json \<Rightarrow> bool" where
  "hashable (JArr _) = False"
| "hashable (JObj _) = False"
| "hashable _ = True"

fun dict_key :: "json \<Rightarrow> json" where
  "dict_key (JBool b) = JNum (if b then 1 else 0)"
| "dict_key v = v"

text \<open>\<^verbatim>\<open>s.split(sep)\<close> for a one-character separator.\<close>

fun py_split :: "char \<Rightarrow> string \<Rightarrow> string list" where
  "py_split sep [] = [[]]"
| "py_split sep (c # cs) =
     (if c = sep then [] # py_split sep cs
      else (case py_split sep cs of
              [] \<Rightarrow> [[c]]
            | p # ps \<Rightarrow> (c # p) # ps))"

text \<open>\<^verbatim>\<open>s.split(sep, 1)\<close>: at most one split, at the first separator.\<close>

definition py_split1 :: "char \<Rightarrow> string \<Rightarrow> string list" where
  "py_split1 sep s =
     (if sep \<in> set s
      then [takeWhile (\<lambda>c. c \<noteq> sep) s, tl (dropWhile (\<lambda>c. c \<noteq> sep) s)]
      else [s])"

section \<open>Configuration: the buttons\<close>

text \<open>\<^verbatim>\<open>class Button(BaseModel)\<close>, lines 36-53, with its defaults.\<close>

record button =
  entity_id :: "string option"
  service :: "string option"
  service_data :: "(string \<times> json) list"
  text' :: string
  text_color :: "string option"
  text_size :: int
  icon :: "string option"
  icon_mdi :: "string option"

definition Button :: button where
  "Button = \<lparr> entity_id = None, service = None, service_data = [], text' = [],
              text_color = None, text_size = 12, icon = None, icon_mdi = None \<rparr>"

text \<open>The property \<^verbatim>\<open>Button.domain\<close>, lines 48-53.\<close>

definition domain :: "button \<Rightarrow> string option" where
  "domain b =
     (case service b of
        None \<Rightarrow> None
      | Some s \<Rightarrow> (case py_split1 (CHR ''.'') s of [] \<Rightarrow> None | d # _ \<Rightarrow> Some d))"

text \<open>\<^verbatim>\<open>DEFAULT_MDI_ICONS\<close>, line 31.\<close>

definition DEFAULT_MDI_ICONS :: "string \<rightharpoonup> string" where
  "DEFAULT_MDI_ICONS = map_of [(''light'', ''lightbulb''), (''switch'', ''power-socket-eu'')]"

text \<open>
  A button's \<^verbatim>\<open>entity_id\<close> (a string or \<^verbatim>\<open>None\<close>) as the Python value that is compared
  with the identifiers of the frames and looked up in the state dictionary.
\<close>

definition entity_key :: "button \<Rightarrow> json" where
  "entity_key b = (case entity_id b of None \<Rightarrow> JNull | Some s \<Rightarrow> JStr s)"

section \<open>The state of the process\<close>

text \<open>
  What a rendered key shows. \<^verbatim>\<open>render_key_image\<close> draws with Pillow; the pixel buffer is
  represented by the choices that determine it.
\<close>

datatype icon_source = IconFile string | IconMdi string | NoIcon

record image =
  img_icon :: icon_source
  img_text :: string
  img_fill :: string
  img_font_size :: int

text \<open>
  What happens on the network, in order: a connection opened by \<^verbatim>\<open>websockets.connect\<close>,
  a frame sent, the connection closed when its \<^verbatim>\<open>async with\<close> block is left, a call of
  \<^verbatim>\<open>asyncio.sleep\<close> with its number of seconds.
\<close>

datatype wire_event = Opened | Sent json | Closed | Slept nat

text \<open>
  The mutable state: the module global \<^verbatim>\<open>_ID_COUNTER\<close>, the dictionary \<^verbatim>\<open>state\<close> shared by the
  receive loop and the key callback, the images pushed to the deck with
  \<^verbatim>\<open>set_key_image\<close> (latest last), and the network log. Sending a frame and pushing an
  image are taken to succeed.
\<close>

record world =
  id_counter :: int
  store :: "json \<rightharpoonup> json"
  deck :: "(nat \<times> image) list"
  wire :: "wire_event list"

text \<open>The state at program start: \<^verbatim>\<open>_ID_COUNTER = 0\<close> (line 33), nothing stored, drawn or sent.\<close>

definition init_world :: world where
  "init_world = \<lparr> id_counter = 0, store = Map.empty, deck = [], wire = [] \<rparr>"

text \<open>The collaborators: Jinja2's \<^verbatim>\<open>Template(text).render(state=...)\<close> and the failures of rendering.\<close>

record env =
  render_jinja :: "string \<Rightarrow> json \<Rightarrow> error + string"
  render_fault :: "string \<Rightarrow> string option \<Rightarrow> string option \<Rightarrow> int \<Rightarrow> string \<Rightarrow> error option"

section \<open>Correlation identifiers\<close>

text \<open>\<^verbatim>\<open>_next_id\<close>, lines 62-65.\<close>

definition next_id :: "world \<Rightarrow> int \<times> world" where
  "next_id w = (id_counter w + 1, w\<lparr>id_counter := id_counter w + 1\<rparr>)"

text \<open>\<open>n\<close> calls of \<^verbatim>\<open>_next_id\<close> in a row, with the values they return.\<close>

fun next_ids :: "nat \<Rightarrow> world \<Rightarrow> int list \<times> world" where
  "next_ids 0 w = ([], w)"
| "next_ids (Suc n) w =
     (case next_id w of (i, w') \<Rightarrow> (case next_ids n w' of (is, w'') \<Rightarrow> (i # is, w'')))"

section \<open>Rendering a key\<close>

text \<open>
  \<^verbatim>\<open>render_key_image\<close>, lines 206-243: a static icon file wins over a Material Design
  icon, which wins over the black background; the label is drawn in \<^verbatim>\<open>text_color\<close>.
  Whether Pillow, the download or the font fail on these arguments is decided by the
  environment.
\<close>

definition render_key_image ::
  "env \<Rightarrow> string \<Rightarrow> string option \<Rightarrow> string option \<Rightarrow> int \<Rightarrow> string \<Rightarrow> error + image" where
  "render_key_image e color icon_filename mdi fsize label =
     (case render_fault e color icon_filename mdi fsize label of
        Some err \<Rightarrow> Inl err
      | None \<Rightarrow>
          Inr \<lparr> img_icon =
                  (case icon_filename of
                     Some f \<Rightarrow> IconFile f
                   | None \<Rightarrow> (case mdi of Some m \<Rightarrow> IconMdi m | None \<Rightarrow> NoIcon)),
                img_text = label, img_fill = color, img_font_size = fsize \<rparr>)"

text \<open>
  \<^verbatim>\<open>update_key_image\<close>, lines 255-276: the label, the colour and the Material Design icon
  of a button, from the entity's record when the state dictionary has one.
\<close>

definition key_binding ::
  "env \<Rightarrow> button \<Rightarrow> (json \<rightharpoonup> json) \<Rightarrow> error + (string \<times> string \<times> string option)" where
  "key_binding e b st =
     (case st (dict_key (entity_key b)) of
        Some state \<Rightarrow>
          (case render_jinja e (text' b) state of
             Inl err \<Rightarrow> Inl err
           | Inr txt \<Rightarrow>
               (case (case text_color b of
                        Some tc \<Rightarrow> render_jinja e tc state
                      | None \<Rightarrow>
                          (case py_getitem state ''state'' of
                             Inl err \<Rightarrow> Inl err
                           | Inr v \<Rightarrow> Inr (if v = JStr ''on'' then ''orangered'' else ''white''))) of
                  Inl err \<Rightarrow> Inl err
                | Inr color \<Rightarrow>
                    Inr (txt, color,
                         (case icon_mdi b of
                            Some m \<Rightarrow> Some m
                          | None \<Rightarrow>
                              (case domain b of
                                 None \<Rightarrow> None
                               | Some d \<Rightarrow>
                                   (if icon b = None \<and> DEFAULT_MDI_ICONS d \<noteq> None
                                    then DEFAULT_MDI_ICONS d else None))))))
      | None \<Rightarrow>
          Inr (text' b,
               (case text_color b of
                  None \<Rightarrow> ''white''
                | Some tc \<Rightarrow> (if tc = [] then ''white'' else tc)),
               icon_mdi b))"

text \<open>
  \<^verbatim>\<open>update_key_image\<close>, lines 277-286: render with the colour \<^verbatim>\<open>green\<close> while the key is
  pressed and push the image to the deck.
\<close>

definition update_key_image ::
  "env \<Rightarrow> nat \<Rightarrow> button \<Rightarrow> bool \<Rightarrow> world \<Rightarrow> (error + unit) \<times> world" where
  "update_key_image e key b key_pressed w =
     (case key_binding e b (store w) of
        Inl err \<Rightarrow> (Inl err, w)
      | Inr (txt, color, mdi) \<Rightarrow>
          (case render_key_image e (if \<not> key_pressed then color else ''green'')
                  (icon b) mdi (text_size b) txt of
             Inl err \<Rightarrow> (Inl err, w)
           | Inr img \<Rightarrow> (Inr (), w\<lparr>deck := deck w @ [(key, img)]\<rparr>)))"

section \<open>State updates\<close>

text \<open>
  \<^verbatim>\<open>_keys\<close>, lines 115-117. The identifier of a frame is any JSON value; it equals a
  button's \<^verbatim>\<open>entity_id\<close> when both are the same string, or both are \<^verbatim>\<open>None\<close>.
\<close>

definition keys :: "json \<Rightarrow> button list \<Rightarrow> nat list" where
  "keys eid buttons = [i. (i, b) \<leftarrow> enumerate 0 buttons, entity_key b = eid]"

text \<open>
  The loops \<^verbatim>\<open>for key in keys\<close> (lines 134-142) and \<^verbatim>\<open>for key in range(deck.key_count())\<close>
  (lines 440-447), which have the same body; \<^verbatim>\<open>buttons[key]\<close> raises when there is no
  such button.
\<close>

fun render_keys :: "env \<Rightarrow> button list \<Rightarrow> nat list \<Rightarrow> world \<Rightarrow> (error + unit) \<times> world" where
  "render_keys e buttons [] w = (Inr (), w)"
| "render_keys e buttons (key # ks) w =
     (if key < length buttons
      then (case update_key_image e key (buttons ! key) False w of
              (Inl err, w') \<Rightarrow> (Inl err, w')
            | (Inr u, w') \<Rightarrow> render_keys e buttons ks w')
      else (Inl IndexError, w))"

text \<open>\<^verbatim>\<open>_update_state\<close>, lines 120-142.\<close>

definition update_state ::
  "env \<Rightarrow> json \<Rightarrow> button list \<Rightarrow> world \<Rightarrow> (error + unit) \<times> world" where
  "update_state e data buttons w =
     (case py_getitem data ''type'' of
        Inl err \<Rightarrow> (Inl err, w)
      | Inr t \<Rightarrow>
          if t = JStr ''event'' then
            (case py_getitem data ''event'' of
               Inl err \<Rightarrow> (Inl err, w)
             | Inr event \<Rightarrow>
                 (case py_getitem event ''event_type'' of
                    Inl err \<Rightarrow> (Inl err, w)
                  | Inr et \<Rightarrow>
                      if et = JStr ''state_changed'' then
                        (case py_getitem event ''data'' of
                           Inl err \<Rightarrow> (Inl err, w)
                         | Inr event_data \<Rightarrow>
                             (case py_getitem event_data ''entity_id'' of
                                Inl err \<Rightarrow> (Inl err, w)
                              | Inr eid \<Rightarrow>
                                  (case py_getitem event_data ''new_state'' of
                                     Inl err \<Rightarrow> (Inl err, w)
                                   | Inr new_state \<Rightarrow>
                                       if hashable eid
                                       then render_keys e buttons (keys eid buttons)
                                              (w\<lparr>store := (store w)(dict_key eid \<mapsto> new_state)\<rparr>)
                                       else (Inl TypeError, w))))
                      else (Inr (), w)))
          else (Inr (), w))"

text \<open>
  What one \<^verbatim>\<open>await websocket.recv()\<close> brings: a text that \<^verbatim>\<open>json.loads\<close> decodes to a
  value, a text it cannot decode, or an exception of the connection.
\<close>

datatype inbound = Frame json | Undecodable | RecvRaises error

text \<open>
  \<^verbatim>\<open>handle_state_changes\<close>, lines 102-112. The loop has no exit: it ends with an exception
  or waits for the next frame.
\<close>

fun handle_state_changes ::
  "env \<Rightarrow> button list \<Rightarrow> inbound list \<Rightarrow> world \<Rightarrow> unit outcome \<times> world" where
  "handle_state_changes e buttons [] w = (Blocked, w)"
| "handle_state_changes e buttons (RecvRaises err # ins) w = (Raised err, w)"
| "handle_state_changes e buttons (Undecodable # ins) w = (Raised JSONDecodeError, w)"
| "handle_state_changes e buttons (Frame data # ins) w =
     (case update_state e data buttons w of
        (Inl err, w') \<Rightarrow> (Raised err, w')
      | (Inr u, w') \<Rightarrow> handle_state_changes e buttons ins w')"

section \<open>Requests\<close>

text \<open>\<^verbatim>\<open>await websocket.send(json.dumps(payload))\<close>.\<close>

definition send :: "json \<Rightarrow> world \<Rightarrow> world" where
  "send payload w = w\<lparr>wire := wire w @ [Sent payload]\<rparr>"

text \<open>\<^verbatim>\<open>subscribe_state_changes\<close>, lines 90-99.\<close>

definition subscribe_state_changes :: "world \<Rightarrow> world" where
  "subscribe_state_changes w =
     (case next_id w of
        (i, w') \<Rightarrow>
          send (JObj [(''type'', JStr ''subscribe_events''),
                      (''event_type'', JStr ''state_changed''),
                      (''id'', JNum i)]) w')"

text \<open>\<^verbatim>\<open>unsubscribe\<close>, lines 169-176.\<close>

definition unsubscribe :: "int \<Rightarrow> world \<Rightarrow> world" where
  "unsubscribe sub_id w =
     (case next_id w of
        (i, w') \<Rightarrow>
          send (JObj [(''id'', JNum i),
                      (''type'', JStr ''unsubscribe_events''),
                      (''subscription'', JNum sub_id)]) w')"

text \<open>
  The comprehension \<^verbatim>\<open>{state["entity_id"]: state for state in data["result"]}\<close>, line 163,
  filling the dictionary from left to right.
\<close>

fun state_dict :: "json list \<Rightarrow> (json \<rightharpoonup> json) \<Rightarrow> error + (json \<rightharpoonup> json)" where
  "state_dict [] acc = Inr acc"
| "state_dict (state # rest) acc =
     (case py_getitem state ''entity_id'' of
        Inl err \<Rightarrow> Inl err
      | Inr k \<Rightarrow> if hashable k then state_dict rest (acc(dict_key k \<mapsto> state)) else Inl TypeError)"

text \<open>The loop of \<^verbatim>\<open>get_states\<close>, lines 159-166, for the request whose id, the local \<^verbatim>\<open>_id\<close>, is \<open>sub_id\<close>.\<close>

fun get_states_loop ::
  "int \<Rightarrow> inbound list \<Rightarrow> world \<Rightarrow> ((json \<rightharpoonup> json) \<times> inbound list) outcome \<times> world" where
  "get_states_loop sub_id [] w = (Blocked, w)"
| "get_states_loop sub_id (RecvRaises err # ins) w = (Raised err, w)"
| "get_states_loop sub_id (Undecodable # ins) w = (Raised JSONDecodeError, w)"
| "get_states_loop sub_id (Frame data # ins) w =
     (case py_getitem data ''type'' of
        Inl err \<Rightarrow> (Raised err, w)
      | Inr t \<Rightarrow>
          if t = JStr ''result'' then
            (case py_getitem data ''result'' of
               Inl err \<Rightarrow> (Raised err, w)
             | Inr result \<Rightarrow>
                 (case py_iter result of
                    Inl err \<Rightarrow> (Raised err, w)
                  | Inr states \<Rightarrow>
                      (case state_dict states Map.empty of
                         Inl err \<Rightarrow> (Raised err, w)
                       | Inr sd \<Rightarrow> (Returned (sd, ins), unsubscribe sub_id w))))
          else get_states_loop sub_id ins w)"

text \<open>
  \<^verbatim>\<open>get_states\<close>, lines 151-166. It returns the dictionary, and the frames it has not
  read stay on the connection.
\<close>

definition get_states ::
  "inbound list \<Rightarrow> world \<Rightarrow> ((json \<rightharpoonup> json) \<times> inbound list) outcome \<times> world" where
  "get_states ins w =
     (case next_id w of
        (i, w') \<Rightarrow>
          get_states_loop i ins (send (JObj [(''type'', JStr ''get_states''), (''id'', JNum i)]) w'))"

text \<open>
  \<^verbatim>\<open>call_service\<close>, lines 179-193. The assignment \<^verbatim>\<open>domain, service = service.split(".")\<close>
  needs exactly two pieces.
\<close>

definition call_service ::
  "string \<Rightarrow> (string \<times> json) list \<Rightarrow> world \<Rightarrow> (error + unit) \<times> world" where
  "call_service srv data w =
     (case py_split (CHR ''.'') srv of
        [d, s] \<Rightarrow>
          (case next_id w of
             (i, w') \<Rightarrow>
               (Inr (), send (JObj [(''id'', JNum i),
                                    (''type'', JStr ''call_service''),
                                    (''domain'', JStr d),
                                    (''service'', JStr s),
                                    (''service_data'', JObj data)]) w'))
      | _ \<Rightarrow> (Inl ValueError, w))"

section \<open>Key presses\<close>

text \<open>
  \<^verbatim>\<open>key_change_callback\<close>, lines 318-338, the closure returned by
  \<^verbatim>\<open>_on_press_callback\<close>. The deck numbers its keys from 0.
\<close>

definition key_change_callback ::
  "env \<Rightarrow> button list \<Rightarrow> nat \<Rightarrow> bool \<Rightarrow> world \<Rightarrow> (error + unit) \<times> world" where
  "key_change_callback e buttons key key_pressed w =
     (if key < length buttons then
        (let b = buttons ! key in
         case update_key_image e key b key_pressed w of
           (Inl err, w') \<Rightarrow> (Inl err, w')
         | (Inr u, w') \<Rightarrow>
             (if key_pressed \<and> service b \<noteq> None then
                (case service b of
                   None \<Rightarrow> (Inr (), w')
                 | Some srv \<Rightarrow>
                     call_service srv
                       (case entity_id b of
                          Some eid \<Rightarrow>
                            (if service_data b = [] then [(''entity_id'', JStr eid)]
                             else service_data b)
                        | None \<Rightarrow> service_data b) w')
              else (Inr (), w')))
      else (Inl IndexError, w))"

section \<open>The connection\<close>

text \<open>
  What the network does at each \<^verbatim>\<open>websockets.connect\<close>: the connection fails with an
  exception, or it opens and will deliver the given frames.
\<close>

datatype attempt = ConnectFails error | Connects "inbound list"

text \<open>
  The generator \<^verbatim>\<open>setup_ws\<close>, lines 68-87, run from the head of its \<^verbatim>\<open>while True\<close> loop until
  it yields a connection (with the frames that connection still holds and the later
  connection attempts), raises, or waits for the network.
\<close>

datatype gen_step = Yielded "inbound list" "attempt list" | GenRaised error | GenBlocked

fun setup_ws :: "string \<Rightarrow> attempt list \<Rightarrow> world \<Rightarrow> gen_step \<times> world" where
  "setup_ws token [] w = (GenBlocked, w)"
| "setup_ws token (ConnectFails err # net) w =
     (if err = ConnectionResetError
      then setup_ws token net (w\<lparr>wire := wire w @ [Slept 5]\<rparr>)
      else (GenRaised err, w))"
| "setup_ws token (Connects ins # net) w =
     (let w1 = send (JObj [(''type'', JStr ''auth''), (''access_token'', JStr token)])
                 (w\<lparr>wire := wire w @ [Opened]\<rparr>)
      in case ins of
           [] \<Rightarrow> (GenBlocked, w1)
         | RecvRaises err # rest \<Rightarrow>
             (if err = ConnectionResetError
              then setup_ws token net (w1\<lparr>wire := wire w1 @ [Closed, Slept 5]\<rparr>)
              else (GenRaised err, w1\<lparr>wire := wire w1 @ [Closed]\<rparr>))
         | Frame auth_response # rest \<Rightarrow> (Yielded rest net, w1)
         | Undecodable # rest \<Rightarrow> (Yielded rest net, w1))"

text \<open>
  An exception of the \<^verbatim>\<open>async with\<close> body is thrown into the generator at its
  \<^verbatim>\<open>yield\<close>: the connection is closed, and a \<^verbatim>\<open>ConnectionResetError\<close> is caught by the
  handler of lines 84-87, after which the loop goes on.
\<close>

definition setup_ws_athrow :: "string \<Rightarrow> error \<Rightarrow> attempt list \<Rightarrow> world \<Rightarrow> gen_step \<times> world" where
  "setup_ws_athrow token err net w =
     (if err = ConnectionResetError
      then setup_ws token net (w\<lparr>wire := wire w @ [Closed, Slept 5]\<rparr>)
      else (GenRaised err, w\<lparr>wire := wire w @ [Closed]\<rparr>))"

text \<open>
  The statement \<^verbatim>\<open>async with setup_ws(host, token) as websocket\<close> of line 438, under
  \<^verbatim>\<open>contextlib.asynccontextmanager\<close>: the generator runs to its first \<^verbatim>\<open>yield\<close>, the body
  runs, and on exit the generator is resumed (after a normal end) or the body's exception
  is thrown into it. A generator that yields a second time is an error of the protocol:
  the context manager raises \<^verbatim>\<open>RuntimeError\<close> ("generator didn't stop"). What becomes of
  the connection the generator then holds is left out.
\<close>

definition async_with_setup_ws ::
  "string \<Rightarrow> (inbound list \<Rightarrow> world \<Rightarrow> unit outcome \<times> world) \<Rightarrow> attempt list \<Rightarrow> world
     \<Rightarrow> unit outcome \<times> world" where
  "async_with_setup_ws token body net w =
     (case setup_ws token net w of
        (GenRaised err, w1) \<Rightarrow> (Raised err, w1)
      | (GenBlocked, w1) \<Rightarrow> (Blocked, w1)
      | (Yielded ins net1, w1) \<Rightarrow>
          (case body ins w1 of
             (Blocked, w2) \<Rightarrow> (Blocked, w2)
           | (Returned u, w2) \<Rightarrow>
               (case setup_ws token net1 (w2\<lparr>wire := wire w2 @ [Closed]\<rparr>) of
                  (Yielded ins' net2, w3) \<Rightarrow> (Raised RuntimeError, w3)
                | (GenRaised err', w3) \<Rightarrow> (Raised err', w3)
                | (GenBlocked, w3) \<Rightarrow> (Blocked, w3))
           | (Raised err, w2) \<Rightarrow>
               (case setup_ws_athrow token err net1 w2 of
                  (Yielded ins' net2, w3) \<Rightarrow> (Raised RuntimeError, w3)
                | (GenRaised err', w3) \<Rightarrow> (Raised err', w3)
                | (GenBlocked, w3) \<Rightarrow> (Blocked, w3))))"

text \<open>
  \<^verbatim>\<open>main\<close>, lines 434-451, for a deck with \<open>key_count\<close> keys. The body of the
  \<^verbatim>\<open>async with\<close> statement loads the snapshot, draws every key, subscribes and enters the
  receive loop. Registering the key callback and setting the brightness change nothing
  of the state kept here; the callback itself is \<open>key_change_callback\<close>, which the deck
  calls on its own.
\<close>

definition main_body ::
  "env \<Rightarrow> button list \<Rightarrow> nat \<Rightarrow> inbound list \<Rightarrow> world \<Rightarrow> unit outcome \<times> world" where
  "main_body e buttons key_count ins w =
     (case get_states ins w of
        (Raised err, w1) \<Rightarrow> (Raised err, w1)
      | (Blocked, w1) \<Rightarrow> (Blocked, w1)
      | (Returned (state, ins1), w1) \<Rightarrow>
          (case render_keys e buttons [0..<key_count] (w1\<lparr>store := state\<rparr>) of
             (Inl err, w2) \<Rightarrow> (Raised err, w2)
           | (Inr u, w2) \<Rightarrow> handle_state_changes e buttons ins1 (subscribe_state_changes w2)))"

definition main ::
  "env \<Rightarrow> string \<Rightarrow> button list \<Rightarrow> nat \<Rightarrow> attempt list \<Rightarrow> world \<Rightarrow> unit outcome \<times> world" where
  "main e token buttons key_count net w =
     async_with_setup_ws token (main_body e buttons key_count) net w"

section \<open>The requests that carry a correlation id\<close>

text \<open>
  The correlation id of an event of the network log: the integer under \<^verbatim>\<open>id\<close> of a frame
  that was sent, when the frame has one (the authentication message has none).
\<close>

definition frame_id :: "wire_event \<Rightarrow> int option" where
  "frame_id ev =
     (case ev of
        Sent (JObj items) \<Rightarrow> (case map_of items ''id'' of Some (JNum i) \<Rightarrow> Some i | _ \<Rightarrow> None)
      | _ \<Rightarrow> None)"

definition wire_ids :: "wire_event list \<Rightarrow> int list" where
  "wire_ids evs = List.map_filter frame_id evs"

text \<open>
  The four operations of the module that build a frame with an id: \<^verbatim>\<open>get_states\<close> on a
  connection that will deliver the given frames, \<^verbatim>\<open>subscribe_state_changes\<close>,
  \<^verbatim>\<open>unsubscribe\<close> of a subscription and \<^verbatim>\<open>call_service\<close>; and a run of such operations,
  one after the other, whatever each of them returns or raises.
\<close>

datatype request =
    GetStates "inbound list"
  | SubscribeStateChanges
  | Unsubscribe int
  | CallService string "(string \<times> json) list"

fun perform :: "request \<Rightarrow> world \<Rightarrow> world" where
  "perform (GetStates ins) w = snd (get_states ins w)"
| "perform SubscribeStateChanges w = subscribe_state_changes w"
| "perform (Unsubscribe sub_id) w = unsubscribe sub_id w"
| "perform (CallService srv data) w = snd (call_service srv data w)"

fun perform_all :: "request list \<Rightarrow> world \<Rightarrow> world" where
  "perform_all [] w = w"
| "perform_all (r # rs) w = perform_all rs (perform r w)"

text \<open>
  The log holds only frames with an id, and their ids are 1, 2, ... up to the present
  value of \<^verbatim>\<open>_ID_COUNTER\<close>, in this order.
\<close>

definition ids_in_step :: "world \<Rightarrow> bool" where
  "ids_in_step w \<longleftrightarrow>
     0 \<le> id_counter w
     \<and> wire_ids (wire w) = map int [1..<Suc (nat (id_counter w))]
     \<and> length (wire w) = nat (id_counter w)"

section \<open>The frames of a state change, as the interface describes them\<close>

text \<open>
  The inbound frame of an update is
  \<^verbatim>\<open>{"type":"event","event":{"event_type":"state_changed","data":{"entity_id":..., "new_state":...}}}\<close>.
  \<open>state_changed_event\<close> reads the entity identifier and the payload off such a frame and
  is \<open>None\<close> on every other value.
\<close>

definition state_changed_event :: "json \<Rightarrow> (json \<times> json) option" where
  "state_changed_event data =
     (case py_getitem data ''type'' of
        Inl _ \<Rightarrow> None
      | Inr t \<Rightarrow>
          if t \<noteq> JStr ''event'' then None
          else (case py_getitem data ''event'' of
                  Inl _ \<Rightarrow> None
                | Inr ev \<Rightarrow>
                    (case py_getitem ev ''event_type'' of
                       Inl _ \<Rightarrow> None
                     | Inr et \<Rightarrow>
                         if et \<noteq> JStr ''state_changed'' then None
                         else (case py_getitem ev ''data'' of
                                 Inl _ \<Rightarrow> None
                               | Inr d \<Rightarrow>
                                   (case (py_getitem d ''entity_id'', py_getitem d ''new_state'') of
                                      (Inr eid, Inr ns) \<Rightarrow> Some (eid, ns)
                                    | _ \<Rightarrow> None)))))"

text \<open>
  The payload of the last frame of a sequence that names the dictionary key \<open>k\<close>, if any
  frame does.
\<close>

definition last_write :: "json \<Rightarrow> json list \<Rightarrow> json option" where
  "last_write k frames =
     (case filter (\<lambda>ev. dict_key (fst ev) = k) (List.map_filter state_changed_event frames) of
        [] \<Rightarrow> None
      | ev # evs \<Rightarrow> Some (snd (last (ev # evs))))"

text \<open>
  The reply to \<^verbatim>\<open>get_states\<close> is \<^verbatim>\<open>{"type":"result","id":...,"result":[{"entity_id":...,...},...]}\<close>.
  \<open>snapshot\<close> is the dictionary such a result list describes: under the key \<open>k\<close>, the last
  record of the list whose \<^verbatim>\<open>entity_id\<close> is that key.
\<close>

definition snapshot :: "json list \<Rightarrow> json \<Rightarrow> json option" where
  "snapshot states k =
     (case filter (\<lambda>s. case py_getitem s ''entity_id'' of
                         Inl _ \<Rightarrow> False
                       | Inr eid \<Rightarrow> dict_key eid = k) states of
        [] \<Rightarrow> None
      | s # ss \<Rightarrow> Some (last (s # ss)))"

section \<open>A concrete installation\<close>

text \<open>
  An environment in which a template renders as its own text and rendering never fails,
  the frame that reports the state \<open>v\<close> of the entity \<open>eid\<close>, and the record it carries.
\<close>

definition plain_env :: env where
  "plain_env = \<lparr> render_jinja = (\<lambda>template state. Inr template),
                 render_fault = (\<lambda>color icon_filename mdi fsize label. None) \<rparr>"

definition entity_record :: "string \<Rightarrow> string \<Rightarrow> json" where
  "entity_record eid v = JObj [(''entity_id'', JStr eid), (''state'', JStr v)]"

definition state_changed :: "string \<Rightarrow> string \<Rightarrow> json" where
  "state_changed eid v =
     JObj [(''type'', JStr ''event''),
           (''event'', JObj [(''event_type'', JStr ''state_changed''),
                             (''data'', JObj [(''entity_id'', JStr eid),
                                              (''new_state'', entity_record eid v)])])]"

text \<open>The reply with correlation id \<open>i\<close> that carries the records \<open>states\<close>.\<close>

definition result_frame :: "int \<Rightarrow> json list \<Rightarrow> json" where
  "result_frame i states =
     JObj [(''id'', JNum i), (''type'', JStr ''result''), (''success'', JBool True),
           (''result'', JArr states)]"

text \<open>The hub's answer to the authentication message.\<close>

definition auth_ok :: json where
  "auth_ok = JObj [(''type'', JStr ''auth_ok'')]"

section \<open>Properties\<close>

lemma next_ids_from:
  "next_ids n w =
     (map (\<lambda>k. id_counter w + int k) [1..<Suc n], w\<lparr>id_counter := id_counter w + int n\<rparr>)"
proof (induction n arbitrary: w)
  case 0
  show ?case by simp
next
  case (Suc n)
  have "[1..<Suc (Suc n)] = 1 # map Suc [1..<Suc n]"
    by (simp add: upt_conv_Cons map_Suc_upt del: upt_Suc)
  then show ?case
    by (simp add: Suc.IH next_id_def comp_def add.assoc del: upt_Suc)
qed

lemma update_key_image_effect:
  "update_key_image e k b p w = (r, w') \<Longrightarrow>
     store w' = store w \<and> wire w' = wire w \<and> id_counter w' = id_counter w \<and>
     ((\<exists>err. r = Inl err \<and> deck w' = deck w) \<or> (\<exists>img. r = Inr () \<and> deck w' = deck w @ [(k, img)]))"
  by (auto simp: update_key_image_def split: sum.splits prod.splits)

lemma render_keys_effect:
  "render_keys e bs ks w = (r, w') \<Longrightarrow>
     store w' = store w \<and> wire w' = wire w \<and> id_counter w' = id_counter w \<and>
     (\<exists>imgs. deck w' = deck w @ imgs \<and> prefix (map fst imgs) ks \<and> (r = Inr () \<longrightarrow> map fst imgs = ks))"
proof (induction ks arbitrary: w)
  case Nil
  then show ?case by auto
next
  case (Cons k ks)
  show ?case
  proof (cases "k < length bs")
    case False
    with Cons.prems show ?thesis by auto
  next
    case True
    obtain r1 w1 where u: "update_key_image e k (bs ! k) False w = (r1, w1)"
      by (cases "update_key_image e k (bs ! k) False w")
    note eff = update_key_image_effect [OF u]
    show ?thesis
    proof (cases r1)
      case (Inl err)
      with Cons.prems True u eff show ?thesis by auto
    next
      case (Inr u1)
      with Cons.prems True u have rk: "render_keys e bs ks w1 = (r, w')" by simp
      from Inr eff obtain img where d1: "deck w1 = deck w @ [(k, img)]" by auto
      from Cons.IH [OF rk] obtain imgs where
        "store w' = store w1" "wire w' = wire w1" "id_counter w' = id_counter w1"
        "deck w' = deck w1 @ imgs" "prefix (map fst imgs) ks" "r = Inr () \<longrightarrow> map fst imgs = ks"
        by blast
      with eff d1 show ?thesis
        by (intro conjI exI [of _ "(k, img) # imgs"]) auto
    qed
  qed
qed


lemma update_state_store:
  "update_state e data bs w = (r, w') \<Longrightarrow>
     (case state_changed_event data of
        Some (eid, ns) \<Rightarrow> if hashable eid then store w' = (store w)(dict_key eid \<mapsto> ns) else r = Inl TypeError \<and> w' = w
      | None \<Rightarrow> w' = w \<and> (r = Inr () \<or> (\<exists>err. r = Inl err)))"
  by (auto simp: update_state_def state_changed_event_def split: sum.splits if_splits dest: render_keys_effect)

lemma last_write_Cons:
  "last_write k (f # fs) =
     (case last_write k fs of
        Some ns \<Rightarrow> Some ns
      | None \<Rightarrow> (case state_changed_event f of
                   Some (eid, ns) \<Rightarrow> if dict_key eid = k then Some ns else None
                 | None \<Rightarrow> None))"
  by (auto simp: last_write_def map_filter_simps split: option.splits list.splits)

text \<open>
  C1. Last write wins. When the receive loop has processed a sequence of frames and waits
  for the next one, the entry of the state dictionary under any identifier \<open>E\<close> is the
  payload (\<^verbatim>\<open>new_state\<close>) of the last frame of the sequence that is a state change
  naming \<open>E\<close>; when no frame names \<open>E\<close>, the entry is what it was before.
\<close>

theorem last_write_wins:
  "handle_state_changes e bs (map Frame frames) w = (Blocked, w') \<Longrightarrow>
   store w' (dict_key E) =
     (case last_write (dict_key E) frames of None \<Rightarrow> store w (dict_key E) | Some ns \<Rightarrow> Some ns)"
proof (induction frames arbitrary: w)
  case Nil
  then show ?case by (simp add: last_write_def map_filter_simps)
next
  case (Cons f fs)
  obtain r1 w1 where u: "update_state e f bs w = (r1, w1)"
    by (cases "update_state e f bs w")
  with Cons.prems obtain u1 where r1: "r1 = Inr u1" and h: "handle_state_changes e bs (map Frame fs) w1 = (Blocked, w')"
    by (cases r1) auto
  from update_state_store [OF u] r1
  have st: "store w1 = (case state_changed_event f of Some (eid, ns) \<Rightarrow> (store w)(dict_key eid \<mapsto> ns) | None \<Rightarrow> store w)"
    by (auto split: option.splits if_splits)
  show ?case
    using Cons.IH [OF h] st
    by (auto simp: last_write_Cons split: option.splits)
qed

text \<open>The equations that evaluate the operations on a concrete input.\<close>

lemmas run_simps =
  update_state_def py_getitem_def keys_def enumerate_eq_zip update_key_image_def key_binding_def
  render_key_image_def plain_env_def state_changed_def entity_record_def entity_key_def
  Button_def init_world_def domain_def py_split1_def DEFAULT_MDI_ICONS_def

theorem last_write_wins_witness:
  "fst (handle_state_changes plain_env [Button\<lparr>entity_id := Some ''light.x''\<rparr>]
          (map Frame [state_changed ''light.x'' ''on'', state_changed ''light.y'' ''on'',
                      state_changed ''light.x'' ''off''])
          init_world) = Blocked
   \<and> store (snd (handle_state_changes plain_env [Button\<lparr>entity_id := Some ''light.x''\<rparr>]
          (map Frame [state_changed ''light.x'' ''on'', state_changed ''light.y'' ''on'',
                      state_changed ''light.x'' ''off''])
          init_world)) (dict_key (JStr ''light.x'')) = Some (entity_record ''light.x'' ''off'')"
proof -
  let ?run = "handle_state_changes plain_env [Button\<lparr>entity_id := Some ''light.x''\<rparr>]
          (map Frame [state_changed ''light.x'' ''on'', state_changed ''light.y'' ''on'',
                      state_changed ''light.x'' ''off''])
          init_world"
  have b: "fst ?run = Blocked"
    by (simp add: run_simps)
  then have "?run = (Blocked, snd ?run)"
    by (metis prod.collapse)
  from last_write_wins [OF this, of "JStr ''light.x''"] b show ?thesis
    by (simp add: last_write_def map_filter_simps state_changed_event_def py_getitem_def state_changed_def entity_record_def)
qed



lemma key_binding_bound:
  "st (dict_key (entity_key b)) = Some state \<Longrightarrow> key_binding e b st = Inr (label, color, mdi) \<Longrightarrow>
     (case text_color b of
        Some tc \<Rightarrow> render_jinja e tc state = Inr color
      | None \<Rightarrow> (\<exists>v. py_getitem state ''state'' = Inr v
                    \<and> color = (if v = JStr ''on'' then ''orangered'' else ''white'')))"
  by (auto simp: key_binding_def split: sum.splits option.splits if_splits)

lemma update_key_image_drawn:
  "update_key_image e k b p w = (Inr u, w') \<Longrightarrow>
     \<exists>label color mdi. key_binding e b (store w) = Inr (label, color, mdi)
        \<and> w' = w\<lparr>deck := deck w @
                 [(k, \<lparr> img_icon = (case icon b of
                                      Some f \<Rightarrow> IconFile f
                                    | None \<Rightarrow> (case mdi of Some m \<Rightarrow> IconMdi m | None \<Rightarrow> NoIcon)),
                         img_text = label, img_fill = (if p then ''green'' else color),
                         img_font_size = text_size b \<rparr>)]\<rparr>"
  by (cases p) (auto simp: update_key_image_def render_key_image_def split: sum.splits option.splits prod.splits)

text \<open>
  C8. For a button whose entity has a record in the state dictionary and whose key is not
  pressed, the colour of the drawn label is the rendering of the button's \<^verbatim>\<open>text_color\<close>
  template against that record when the button has one; otherwise it is \<^verbatim>\<open>orangered\<close>
  when the record's \<^verbatim>\<open>state\<close> is \<^verbatim>\<open>on\<close>, and \<^verbatim>\<open>white\<close> when it is anything else.
\<close>

theorem bound_text_color:
  "store w (dict_key (entity_key b)) = Some state \<Longrightarrow>
   update_key_image e k b False w = (Inr (), w') \<Longrightarrow>
   \<exists>img. deck w' = deck w @ [(k, img)]
     \<and> (case text_color b of
          Some tc \<Rightarrow> render_jinja e tc state = Inr (img_fill img)
        | None \<Rightarrow> (\<exists>v. py_getitem state ''state'' = Inr v
                      \<and> img_fill img = (if v = JStr ''on'' then ''orangered'' else ''white'')))"
proof -
  assume present: "store w (dict_key (entity_key b)) = Some state"
    and drawn: "update_key_image e k b False w = (Inr (), w')"
  from update_key_image_drawn [OF drawn] obtain label color mdi where
    kb: "key_binding e b (store w) = Inr (label, color, mdi)"
    and weq: "w' = w\<lparr>deck := deck w @
                 [(k, \<lparr> img_icon = (case icon b of
                                      Some f \<Rightarrow> IconFile f
                                    | None \<Rightarrow> (case mdi of Some m \<Rightarrow> IconMdi m | None \<Rightarrow> NoIcon)),
                         img_text = label, img_fill = (if False then ''green'' else color),
                         img_font_size = text_size b \<rparr>)]\<rparr>"
    by blast
  let ?img = "\<lparr> img_icon = (case icon b of
                                      Some f \<Rightarrow> IconFile f
                                    | None \<Rightarrow> (case mdi of Some m \<Rightarrow> IconMdi m | None \<Rightarrow> NoIcon)),
                         img_text = label, img_fill = color,
                         img_font_size = text_size b \<rparr>"
  from weq have d: "deck w' = deck w @ [(k, ?img)]"
    by simp
  have f: "img_fill ?img = color"
    by simp
  from key_binding_bound [OF present kb]
  have "case text_color b of
          Some tc \<Rightarrow> render_jinja e tc state = Inr (img_fill ?img)
        | None \<Rightarrow> (\<exists>v. py_getitem state ''state'' = Inr v
                      \<and> img_fill ?img = (if v = JStr ''on'' then ''orangered'' else ''white''))"
    unfolding f .
  with d show ?thesis
    by blast
qed

theorem bound_text_color_witness:
  "fst (update_key_image plain_env 0 (Button\<lparr>entity_id := Some ''light.x''\<rparr>) False
          (init_world\<lparr>store := [JStr ''light.x'' \<mapsto> entity_record ''light.x'' ''on'']\<rparr>)) = Inr ()
   \<and> map (\<lambda>d. img_fill (snd d))
        (deck (snd (update_key_image plain_env 0 (Button\<lparr>entity_id := Some ''light.x''\<rparr>) False
          (init_world\<lparr>store := [JStr ''light.x'' \<mapsto> entity_record ''light.x'' ''on'']\<rparr>))))
      = [''orangered'']"
proof -
  let ?b = "Button\<lparr>entity_id := Some ''light.x''\<rparr>"
  let ?w = "init_world\<lparr>store := [JStr ''light.x'' \<mapsto> entity_record ''light.x'' ''on'']\<rparr>"
  let ?run = "update_key_image plain_env 0 ?b False ?w"
  have ok: "fst ?run = Inr ()"
    by (simp add: run_simps)
  then have run: "?run = (Inr (), snd ?run)"
    by (metis prod.collapse)
  have present: "store ?w (dict_key (entity_key ?b)) = Some (entity_record ''light.x'' ''on'')"
    by (simp add: entity_key_def Button_def)
  from bound_text_color [OF present run] obtain img where
    "deck (snd ?run) = deck ?w @ [(0, img)]" and "img_fill img = ''orangered''"
    by (auto simp: Button_def entity_record_def py_getitem_def)
  with ok show ?thesis
    by (simp add: init_world_def)
qed

lemma py_split_nonempty: "py_split sep s \<noteq> []"
  by (induction s) (auto split: list.splits)

lemma py_split_length: "length (py_split sep s) = Suc (count_list s sep)"
  using py_split_nonempty [of sep]
  by (induction s) (auto split: list.splits)

lemma call_service_one_dot:
  assumes "count_list srv (CHR ''.'') = 1"
  shows "\<exists>d s. py_split (CHR ''.'') srv = [d, s]
           \<and> call_service srv data w =
               (Inr (), w\<lparr>id_counter := id_counter w + 1,
                          wire := wire w @
                            [Sent (JObj [(''id'', JNum (id_counter w + 1)),
                                         (''type'', JStr ''call_service''),
                                         (''domain'', JStr d),
                                         (''service'', JStr s),
                                         (''service_data'', JObj data)])]\<rparr>)"
proof -
  from assms have "length (py_split (CHR ''.'') srv) = 2"
    by (simp add: py_split_length)
  then obtain d s where "py_split (CHR ''.'') srv = [d, s]"
    by (cases "py_split (CHR ''.'') srv"; cases "tl (py_split (CHR ''.'') srv)") auto
  then show ?thesis
    by (simp add: call_service_def next_id_def send_def)
qed

lemma call_service_other:
  assumes "count_list srv (CHR ''.'') \<noteq> 1"
  shows "call_service srv data w = (Inl ValueError, w)"
proof -
  from assms have "length (py_split (CHR ''.'') srv) \<noteq> 2"
    by (simp add: py_split_length)
  then show ?thesis
    by (auto simp: call_service_def split: list.splits)
qed

lemma takeWhile_no_sep: "sep \<notin> set s \<Longrightarrow> takeWhile (\<lambda>c. c \<noteq> sep) s = s"
  by (induction s) auto

lemma domain_takeWhile:
  "domain b = map_option (takeWhile (\<lambda>c. c \<noteq> CHR ''.'')) (service b)"
  by (auto simp: domain_def py_split1_def takeWhile_no_sep split: option.splits)

lemma call_service_effect:
  "call_service srv data w = (r, w') \<Longrightarrow> store w' = store w \<and> deck w' = deck w"
  by (cases "count_list srv (CHR ''.'') = 1")
     (use call_service_one_dot [of srv data w] call_service_other [of srv data w] in auto)

text \<open>
  C7. A release of a key (\<^verbatim>\<open>key_pressed\<close> false) sends nothing and takes no correlation
  id: it is exactly the redraw of that key with its unpressed colours. The wire changes
  only when the key was pressed.
\<close>

theorem release_sends_nothing:
  "key_change_callback e bs key pressed w = (r, w') \<Longrightarrow>
     (wire w' \<noteq> wire w \<longrightarrow> pressed)
     \<and> (\<not> pressed \<longrightarrow>
          wire w' = wire w \<and> id_counter w' = id_counter w
          \<and> (key < length bs \<longrightarrow> update_key_image e key (bs ! key) False w = (r, w'))
          \<and> (r = Inr () \<longrightarrow>
               (\<exists>label color mdi img. key_binding e (bs ! key) (store w) = Inr (label, color, mdi)
                  \<and> deck w' = deck w @ [(key, img)]
                  \<and> img_text img = label \<and> img_fill img = color)))"
proof -
  assume run: "key_change_callback e bs key pressed w = (r, w')"
  have released: "wire w' = wire w \<and> id_counter w' = id_counter w
          \<and> (key < length bs \<longrightarrow> update_key_image e key (bs ! key) False w = (r, w'))
          \<and> (r = Inr () \<longrightarrow>
               (\<exists>label color mdi img. key_binding e (bs ! key) (store w) = Inr (label, color, mdi)
                  \<and> deck w' = deck w @ [(key, img)]
                  \<and> img_text img = label \<and> img_fill img = color))" if up: "\<not> pressed"
  proof (cases "key < length bs")
    case False
    with run show ?thesis
      by (auto simp: key_change_callback_def)
  next
    case True
    obtain r1 w1 where u: "update_key_image e key (bs ! key) False w = (r1, w1)"
      by (cases "update_key_image e key (bs ! key) False w")
    with run True up have same: "r = r1" "w' = w1"
      by (auto simp: key_change_callback_def Let_def split: sum.splits)
    note eff = update_key_image_effect [OF u]
    have "\<exists>label color mdi img. key_binding e (bs ! key) (store w) = Inr (label, color, mdi)
                  \<and> deck w' = deck w @ [(key, img)]
                  \<and> img_text img = label \<and> img_fill img = color" if "r = Inr ()"
    proof -
      from that same u have "update_key_image e key (bs ! key) False w = (Inr (), w')"
        by simp
      from update_key_image_drawn [OF this] obtain label color mdi where
        kb: "key_binding e (bs ! key) (store w) = Inr (label, color, mdi)"
        and weq: "w' = w\<lparr>deck := deck w @
                 [(key, \<lparr> img_icon = (case icon (bs ! key) of
                                      Some f \<Rightarrow> IconFile f
                                    | None \<Rightarrow> (case mdi of Some m \<Rightarrow> IconMdi m | None \<Rightarrow> NoIcon)),
                         img_text = label, img_fill = (if False then ''green'' else color),
                         img_font_size = text_size (bs ! key) \<rparr>)]\<rparr>"
        by blast
      from weq have "deck w' = deck w @
                 [(key, \<lparr> img_icon = (case icon (bs ! key) of
                                      Some f \<Rightarrow> IconFile f
                                    | None \<Rightarrow> (case mdi of Some m \<Rightarrow> IconMdi m | None \<Rightarrow> NoIcon)),
                         img_text = label, img_fill = color,
                         img_font_size = text_size (bs ! key) \<rparr>)]"
        by simp
      with kb show ?thesis
        by (metis image.select_convs(2) image.select_convs(3))
    qed
    with eff same u True show ?thesis
      by simp
  qed
  then show ?thesis
    by blast
qed

theorem release_sends_nothing_witness:
  "wire (snd (key_change_callback plain_env
        [Button\<lparr>entity_id := Some ''light.x'', service := Some ''light.toggle''\<rparr>] 0 False init_world)) = []
   \<and> id_counter (snd (key_change_callback plain_env
        [Button\<lparr>entity_id := Some ''light.x'', service := Some ''light.toggle''\<rparr>] 0 False init_world)) = 0
   \<and> key_change_callback plain_env
        [Button\<lparr>entity_id := Some ''light.x'', service := Some ''light.toggle''\<rparr>] 0 False init_world
      = update_key_image plain_env 0
          (Button\<lparr>entity_id := Some ''light.x'', service := Some ''light.toggle''\<rparr>) False init_world
   \<and> wire (snd (key_change_callback plain_env
        [Button\<lparr>entity_id := Some ''light.x'', service := Some ''light.toggle''\<rparr>] 0 True init_world))
      = [Sent (JObj [(''id'', JNum 1), (''type'', JStr ''call_service''), (''domain'', JStr ''light''),
                     (''service'', JStr ''toggle''),
                     (''service_data'', JObj [(''entity_id'', JStr ''light.x'')])])]"
proof -
  let ?bs = "[Button\<lparr>entity_id := Some ''light.x'', service := Some ''light.toggle''\<rparr>]"
  let ?run = "key_change_callback plain_env ?bs 0 False init_world"
  have "?run = (fst ?run, snd ?run)"
    by simp
  from release_sends_nothing [OF this]
  have released: "wire (snd ?run) = [] \<and> id_counter (snd ?run) = 0
                  \<and> ?run = update_key_image plain_env 0
                       (Button\<lparr>entity_id := Some ''light.x'', service := Some ''light.toggle''\<rparr>)
                       False init_world"
    by (simp add: init_world_def)
  have pressed: "wire (snd (key_change_callback plain_env ?bs 0 True init_world))
      = [Sent (JObj [(''id'', JNum 1), (''type'', JStr ''call_service''), (''domain'', JStr ''light''),
                     (''service'', JStr ''toggle''),
                     (''service_data'', JObj [(''entity_id'', JStr ''light.x'')])])]"
    by (simp add: key_change_callback_def call_service_def next_id_def send_def run_simps)
  from released pressed show ?thesis
    by blast
qed

lemma press_call:
  assumes "key < length bs" and "service (bs ! key) = Some srv"
    and "update_key_image e key (bs ! key) True w = (Inr (), w1)"
  shows "key_change_callback e bs key True w =
           call_service srv
             (if service_data (bs ! key) \<noteq> [] then service_data (bs ! key)
              else (case entity_id (bs ! key) of
                      Some eid \<Rightarrow> [(''entity_id'', JStr eid)]
                    | None \<Rightarrow> [])) w1"
  using assms by (auto simp: key_change_callback_def Let_def split: option.splits)

lemma press_not_drawn:
  assumes "key < length bs" and "update_key_image e key (bs ! key) p w = (Inl err, w1)"
  shows "key_change_callback e bs key p w = (Inl err, w1)"
  using assms by (simp add: key_change_callback_def Let_def)

text \<open>
  C6. When a press on a button with a service ends normally, exactly one frame has been
  sent: a \<^verbatim>\<open>call_service\<close> command with the next correlation id, whose \<^verbatim>\<open>service_data\<close> is
  the configured \<^verbatim>\<open>service_data\<close> when that is not empty; otherwise the single item
  \<^verbatim>\<open>entity_id\<close> when the button has an \<^verbatim>\<open>entity_id\<close>; otherwise empty.
\<close>

theorem press_service_data:
  "key < length bs \<Longrightarrow> service (bs ! key) = Some srv \<Longrightarrow>
   key_change_callback e bs key True w = (Inr (), w') \<Longrightarrow>
   \<exists>d s. py_split (CHR ''.'') srv = [d, s]
     \<and> wire w' = wire w @
          [Sent (JObj [(''id'', JNum (id_counter w + 1)),
                       (''type'', JStr ''call_service''),
                       (''domain'', JStr d),
                       (''service'', JStr s),
                       (''service_data'',
                          JObj (if service_data (bs ! key) \<noteq> [] then service_data (bs ! key)
                                else (case entity_id (bs ! key) of
                                        Some eid \<Rightarrow> [(''entity_id'', JStr eid)]
                                      | None \<Rightarrow> [])))])]"
proof -
  assume key: "key < length bs" and srv: "service (bs ! key) = Some srv"
    and run: "key_change_callback e bs key True w = (Inr (), w')"
  let ?data = "if service_data (bs ! key) \<noteq> [] then service_data (bs ! key)
               else (case entity_id (bs ! key) of
                       Some eid \<Rightarrow> [(''entity_id'', JStr eid)]
                     | None \<Rightarrow> [])"
  obtain r1 w1 where u: "update_key_image e key (bs ! key) True w = (r1, w1)"
    by (cases "update_key_image e key (bs ! key) True w")
  have r1: "r1 = Inr ()"
  proof (cases r1)
    case (Inl err)
    with press_not_drawn [OF key] u run show ?thesis by simp
  next
    case (Inr u1)
    then show ?thesis by simp
  qed
  from update_key_image_effect [OF u]
  have same: "wire w1 = wire w" "id_counter w1 = id_counter w"
    by simp_all
  from press_call [OF key srv] u r1 run
  have call: "call_service srv ?data w1 = (Inr (), w')"
    by simp
  have "count_list srv (CHR ''.'') = 1"
  proof (rule ccontr)
    assume "count_list srv (CHR ''.'') \<noteq> 1"
    from call_service_other [OF this, of ?data w1] call show False
      by simp
  qed
  from call_service_one_dot [OF this, of ?data w1] call same show ?thesis
    by auto
qed

theorem press_service_data_witness:
  "wire (snd (key_change_callback plain_env
        [Button\<lparr>service := Some ''light.turn_on''\<rparr>,
         Button\<lparr>entity_id := Some ''light.x'', service := Some ''light.turn_on''\<rparr>,
         Button\<lparr>entity_id := Some ''light.x'', service := Some ''light.turn_on'',
                service_data := [(''brightness'', JNum 10)]\<rparr>] 0 True init_world))
     = [Sent (JObj [(''id'', JNum 1), (''type'', JStr ''call_service''), (''domain'', JStr ''light''),
                    (''service'', JStr ''turn_on''), (''service_data'', JObj [])])]
   \<and> wire (snd (key_change_callback plain_env
        [Button\<lparr>service := Some ''light.turn_on''\<rparr>,
         Button\<lparr>entity_id := Some ''light.x'', service := Some ''light.turn_on''\<rparr>,
         Button\<lparr>entity_id := Some ''light.x'', service := Some ''light.turn_on'',
                service_data := [(''brightness'', JNum 10)]\<rparr>] 1 True init_world))
     = [Sent (JObj [(''id'', JNum 1), (''type'', JStr ''call_service''), (''domain'', JStr ''light''),
                    (''service'', JStr ''turn_on''),
                    (''service_data'', JObj [(''entity_id'', JStr ''light.x'')])])]
   \<and> wire (snd (key_change_callback plain_env
        [Button\<lparr>service := Some ''light.turn_on''\<rparr>,
         Button\<lparr>entity_id := Some ''light.x'', service := Some ''light.turn_on''\<rparr>,
         Button\<lparr>entity_id := Some ''light.x'', service := Some ''light.turn_on'',
                service_data := [(''brightness'', JNum 10)]\<rparr>] 2 True init_world))
     = [Sent (JObj [(''id'', JNum 1), (''type'', JStr ''call_service''), (''domain'', JStr ''light''),
                    (''service'', JStr ''turn_on''),
                    (''service_data'', JObj [(''brightness'', JNum 10)])])]"
proof -
  let ?bs = "[Button\<lparr>service := Some ''light.turn_on''\<rparr>,
         Button\<lparr>entity_id := Some ''light.x'', service := Some ''light.turn_on''\<rparr>,
         Button\<lparr>entity_id := Some ''light.x'', service := Some ''light.turn_on'',
                service_data := [(''brightness'', JNum 10)]\<rparr>]"
  have split: "py_split (CHR ''.'') ''light.turn_on'' = [''light'', ''turn_on'']"
    by simp
  have ok: "fst (key_change_callback plain_env ?bs k True init_world) = Inr ()" if "k < 3" for k
  proof -
    from that have "k = 0 \<or> k = 1 \<or> k = 2" by auto
    then show ?thesis
      by (auto simp: key_change_callback_def call_service_def next_id_def send_def run_simps)
  qed
  have run: "key_change_callback plain_env ?bs k True init_world
               = (Inr (), snd (key_change_callback plain_env ?bs k True init_world))" if "k < 3" for k
    using ok [OF that] by (metis prod.collapse)
  have 0: "service (?bs ! 0) = Some ''light.turn_on''"
    and 1: "service (?bs ! 1) = Some ''light.turn_on''"
    and 2: "service (?bs ! 2) = Some ''light.turn_on''"
    by (simp_all add: Button_def)
  from press_service_data [OF _ 0 run [of 0]] press_service_data [OF _ 1 run [of 1]]
       press_service_data [OF _ 2 run [of 2]] split
  show ?thesis
    by (simp add: Button_def init_world_def)
qed

text \<open>
  C10. \<^verbatim>\<open>call_service\<close> returns normally exactly for the service strings with one
  \<^verbatim>\<open>.\<close>: with none or with more than one, the unpacking of \<^verbatim>\<open>service.split(".")\<close> raises
  \<^verbatim>\<open>ValueError\<close> before an id is taken or a frame is sent. \<^verbatim>\<open>Button.domain\<close> accepts every
  service string, of which it gives the part before the first \<^verbatim>\<open>.\<close>. A press on a button
  with such a service raises and sends nothing.
\<close>

theorem call_service_needs_one_dot:
  "(count_list srv (CHR ''.'') \<noteq> 1 \<longrightarrow> call_service srv data w = (Inl ValueError, w))
   \<and> (count_list srv (CHR ''.'') = 1 \<longrightarrow> (\<exists>w'. call_service srv data w = (Inr (), w')))
   \<and> domain (b\<lparr>service := Some srv\<rparr>) = Some (takeWhile (\<lambda>c. c \<noteq> CHR ''.'') srv)
   \<and> (key < length bs \<and> service (bs ! key) = Some srv \<and> count_list srv (CHR ''.'') \<noteq> 1
        \<longrightarrow> (\<exists>err w'. key_change_callback e bs key True w = (Inl err, w')
               \<and> wire w' = wire w \<and> id_counter w' = id_counter w
               \<and> (fst (update_key_image e key (bs ! key) True w) = Inr () \<longrightarrow> err = ValueError)))"
proof (intro conjI impI)
  assume "count_list srv (CHR ''.'') \<noteq> 1"
  then show "call_service srv data w = (Inl ValueError, w)"
    by (rule call_service_other)
next
  assume "count_list srv (CHR ''.'') = 1"
  from call_service_one_dot [OF this, of data w]
  show "\<exists>w'. call_service srv data w = (Inr (), w')"
    by blast
next
  show "domain (b\<lparr>service := Some srv\<rparr>) = Some (takeWhile (\<lambda>c. c \<noteq> CHR ''.'') srv)"
    by (simp add: domain_takeWhile)
next
  assume a: "key < length bs \<and> service (bs ! key) = Some srv \<and> count_list srv (CHR ''.'') \<noteq> 1"
  obtain r1 w1 where u: "update_key_image e key (bs ! key) True w = (r1, w1)"
    by (cases "update_key_image e key (bs ! key) True w")
  from update_key_image_effect [OF u]
  have same: "wire w1 = wire w" "id_counter w1 = id_counter w"
    by simp_all
  show "\<exists>err w'. key_change_callback e bs key True w = (Inl err, w')
               \<and> wire w' = wire w \<and> id_counter w' = id_counter w
               \<and> (fst (update_key_image e key (bs ! key) True w) = Inr () \<longrightarrow> err = ValueError)"
  proof (cases r1)
    case (Inl err)
    with press_not_drawn [of key bs e True w err w1] a u same show ?thesis
      by simp
  next
    case (Inr u1)
    with u have "update_key_image e key (bs ! key) True w = (Inr (), w1)"
      by simp
    from press_call [OF _ _ this, of srv] a call_service_other [of srv _ w1] same show ?thesis
      by simp
  qed
qed

theorem call_service_needs_one_dot_witness:
  "call_service ''homeassistant'' [] init_world = (Inl ValueError, init_world)
   \<and> call_service ''light.kitchen.toggle'' [] init_world = (Inl ValueError, init_world)
   \<and> fst (call_service ''light.toggle'' [] init_world) = Inr ()
   \<and> domain (Button\<lparr>service := Some ''light.kitchen.toggle''\<rparr>) = Some ''light''
   \<and> fst (key_change_callback plain_env [Button\<lparr>service := Some ''light.kitchen.toggle''\<rparr>] 0 True
            init_world) = Inl ValueError
   \<and> wire (snd (key_change_callback plain_env [Button\<lparr>service := Some ''light.kitchen.toggle''\<rparr>] 0 True
            init_world)) = []"
proof -
  let ?bs = "[Button\<lparr>service := Some ''light.kitchen.toggle''\<rparr>]"
  have drawn: "fst (update_key_image plain_env 0 (?bs ! 0) True init_world) = Inr ()"
    by (simp add: run_simps)
  have srv: "service (?bs ! 0) = Some ''light.kitchen.toggle''"
    by (simp add: Button_def)
  from call_service_needs_one_dot [of "''homeassistant''" "[]" init_world Button 0 "[]" plain_env]
  have 1: "call_service ''homeassistant'' [] init_world = (Inl ValueError, init_world)"
    by simp
  from call_service_needs_one_dot [of "''light.toggle''" "[]" init_world Button 0 "[]" plain_env]
  have 2: "fst (call_service ''light.toggle'' [] init_world) = Inr ()"
    by auto
  from call_service_needs_one_dot [of "''light.kitchen.toggle''" "[]" init_world Button 0 ?bs plain_env]
    drawn srv
  have 3: "call_service ''light.kitchen.toggle'' [] init_world = (Inl ValueError, init_world)"
    and 4: "domain (Button\<lparr>service := Some ''light.kitchen.toggle''\<rparr>) = Some ''light''"
    and 5: "fst (key_change_callback plain_env ?bs 0 True init_world) = Inl ValueError"
    and 6: "wire (snd (key_change_callback plain_env ?bs 0 True init_world)) = []"
    by (auto simp: init_world_def)
  from 1 2 3 4 5 6 show ?thesis
    by simp
qed

lemma state_dict_snapshot:
  assumes "\<forall>s \<in> set states. \<exists>k. py_getitem s ''entity_id'' = Inr k \<and> hashable k"
  shows "\<exists>sd. state_dict states acc = Inr sd
           \<and> (\<forall>k. sd k = (case snapshot states k of None \<Rightarrow> acc k | Some s \<Rightarrow> Some s))"
  using assms
proof (induction states arbitrary: acc)
  case Nil
  show ?case by (simp add: snapshot_def)
next
  case (Cons s states)
  from Cons.prems obtain eid where eid: "py_getitem s ''entity_id'' = Inr eid" "hashable eid"
    by auto
  from Cons.prems have "\<forall>s \<in> set states. \<exists>k. py_getitem s ''entity_id'' = Inr k \<and> hashable k"
    by simp
  from Cons.IH [OF this, of "acc(dict_key eid \<mapsto> s)"] obtain sd where
    sd: "state_dict states (acc(dict_key eid \<mapsto> s)) = Inr sd"
    and look: "\<And>k. sd k = (case snapshot states k of
                           None \<Rightarrow> (acc(dict_key eid \<mapsto> s)) k
                         | Some s' \<Rightarrow> Some s')"
    by blast
  have "sd k = (case snapshot (s # states) k of None \<Rightarrow> acc k | Some s' \<Rightarrow> Some s')" for k
    using look [of k] eid
    by (auto simp: snapshot_def split: list.splits if_splits)
  with sd eid show ?case
    by simp
qed

lemma get_states_loop_skip:
  assumes "\<forall>f \<in> set pre. \<exists>t. py_getitem f ''type'' = Inr t \<and> t \<noteq> JStr ''result''"
  shows "get_states_loop i (map Frame pre @ ins) w = get_states_loop i ins w"
  using assms by (induction pre) auto

text \<open>
  C3, as the code has it. \<^verbatim>\<open>get_states\<close> sends a \<^verbatim>\<open>get_states\<close> request with the next
  correlation id and reads frames, passing over those whose \<^verbatim>\<open>type\<close> is not
  \<^verbatim>\<open>result\<close>, until the first frame whose \<^verbatim>\<open>type\<close> is \<^verbatim>\<open>result\<close>, whatever id that frame
  carries. It returns the dictionary of that frame's result list, keyed by
  \<^verbatim>\<open>entity_id\<close>, after sending \<^verbatim>\<open>unsubscribe_events\<close> with the id after the request's and
  the request's id as \<^verbatim>\<open>subscription\<close>; the later frames stay unread.
\<close>

theorem get_states_first_result:
  assumes "\<forall>f \<in> set pre. \<exists>t. py_getitem f ''type'' = Inr t \<and> t \<noteq> JStr ''result''"
    and "py_getitem reply ''type'' = Inr (JStr ''result'')"
    and "py_getitem reply ''result'' = Inr (JArr states)"
    and "\<forall>s \<in> set states. \<exists>k. py_getitem s ''entity_id'' = Inr k \<and> hashable k"
  shows "\<exists>sd. get_states (map Frame pre @ Frame reply # rest) w =
             (Returned (sd, rest),
              w\<lparr>id_counter := id_counter w + 2,
                 wire := wire w @
                   [Sent (JObj [(''type'', JStr ''get_states''), (''id'', JNum (id_counter w + 1))]),
                    Sent (JObj [(''id'', JNum (id_counter w + 2)),
                                (''type'', JStr ''unsubscribe_events''),
                                (''subscription'', JNum (id_counter w + 1))])]\<rparr>)
           \<and> (\<forall>k. sd k = snapshot states k)"
proof -
  from state_dict_snapshot [OF assms(4), of Map.empty] obtain sd where
    sd: "state_dict states Map.empty = Inr sd"
    and raw: "\<forall>k. sd k = (case snapshot states k of None \<Rightarrow> None | Some s \<Rightarrow> Some s)"
    by blast
  have "sd k = snapshot states k" for k
    using raw by (cases "snapshot states k") simp_all
  then have look: "\<forall>k. sd k = snapshot states k"
    by blast
  let ?w1 = "send (JObj [(''type'', JStr ''get_states''), (''id'', JNum (id_counter w + 1))])
               (w\<lparr>id_counter := id_counter w + 1\<rparr>)"
  have "get_states (map Frame pre @ Frame reply # rest) w
          = get_states_loop (id_counter w + 1) (Frame reply # rest) ?w1"
    by (simp add: get_states_def next_id_def get_states_loop_skip [OF assms(1)])
  also have "\<dots> = (Returned (sd, rest), unsubscribe (id_counter w + 1) ?w1)"
    using assms(2,3) sd by (simp add: py_iter_def)
  also have "unsubscribe (id_counter w + 1) ?w1 =
              w\<lparr>id_counter := id_counter w + 2,
                 wire := wire w @
                   [Sent (JObj [(''type'', JStr ''get_states''), (''id'', JNum (id_counter w + 1))]),
                    Sent (JObj [(''id'', JNum (id_counter w + 2)),
                                (''type'', JStr ''unsubscribe_events''),
                                (''subscription'', JNum (id_counter w + 1))])]\<rparr>"
    by (simp add: unsubscribe_def next_id_def send_def)
  finally show ?thesis
    using look by blast
qed

theorem get_states_first_result_witness:
  "snd (get_states
       [Frame auth_ok, Frame (result_frame 1 [entity_record ''light.x'' ''off'']),
        Frame (state_changed ''light.x'' ''on'')] init_world)
     = \<lparr> id_counter = 2, store = Map.empty, deck = [],
         wire = [Sent (JObj [(''type'', JStr ''get_states''), (''id'', JNum 1)]),
                 Sent (JObj [(''id'', JNum 2), (''type'', JStr ''unsubscribe_events''),
                             (''subscription'', JNum 1)])] \<rparr>
   \<and> (case fst (get_states
       [Frame auth_ok, Frame (result_frame 1 [entity_record ''light.x'' ''off'']),
        Frame (state_changed ''light.x'' ''on'')] init_world) of
        Returned (sd, rest) \<Rightarrow>
          sd (JStr ''light.x'') = Some (entity_record ''light.x'' ''off'')
          \<and> rest = [Frame (state_changed ''light.x'' ''on'')]
      | _ \<Rightarrow> False)"
proof -
  have 1: "\<forall>f \<in> set [auth_ok]. \<exists>t. py_getitem f ''type'' = Inr t \<and> t \<noteq> JStr ''result''"
    by (simp add: auth_ok_def py_getitem_def)
  have 2: "py_getitem (result_frame 1 [entity_record ''light.x'' ''off'']) ''type'' = Inr (JStr ''result'')"
    by (simp add: result_frame_def py_getitem_def)
  have 3: "py_getitem (result_frame 1 [entity_record ''light.x'' ''off'']) ''result''
             = Inr (JArr [entity_record ''light.x'' ''off''])"
    by (simp add: result_frame_def py_getitem_def)
  have 4: "\<forall>s \<in> set [entity_record ''light.x'' ''off''].
             \<exists>k. py_getitem s ''entity_id'' = Inr k \<and> hashable k"
    by (simp add: entity_record_def py_getitem_def)
  from get_states_first_result [OF 1 2 3 4, of "[Frame (state_changed ''light.x'' ''on'')]" init_world]
  show ?thesis
    by (auto simp: init_world_def snapshot_def entity_record_def py_getitem_def)
qed

text \<open>
  The request below has the id 1. The reply that carries the id 7 ends the wait and
  fills the dictionary; the reply that carries the id 1 is not read.
\<close>

theorem get_states_ignores_reply_id:
  "(case fst (get_states
       [Frame (result_frame 7 [entity_record ''light.a'' ''on'']),
        Frame (result_frame 1 [entity_record ''light.x'' ''off''])] init_world) of
        Returned (sd, rest) \<Rightarrow>
          sd (JStr ''light.a'') = Some (entity_record ''light.a'' ''on'')
          \<and> sd (JStr ''light.x'') = None
          \<and> rest = [Frame (result_frame 1 [entity_record ''light.x'' ''off''])]
      | _ \<Rightarrow> False)
   \<and> wire (snd (get_states
       [Frame (result_frame 7 [entity_record ''light.a'' ''on'']),
        Frame (result_frame 1 [entity_record ''light.x'' ''off''])] init_world))
     = [Sent (JObj [(''type'', JStr ''get_states''), (''id'', JNum 1)]),
        Sent (JObj [(''id'', JNum 2), (''type'', JStr ''unsubscribe_events''),
                    (''subscription'', JNum 1)])]"
  by (simp add: get_states_def next_id_def send_def unsubscribe_def result_frame_def
        entity_record_def py_getitem_def py_iter_def init_world_def)

text \<open>
  C4. The default icon is looked up under \<^verbatim>\<open>Button.domain\<close>, which the code takes from
  the button's \<^verbatim>\<open>service\<close>, not from its \<^verbatim>\<open>entity_id\<close>. A button bound to the present
  entity \<^verbatim>\<open>light.kitchen\<close>, with no icon field and no service, is drawn without an icon;
  with the service \<^verbatim>\<open>switch.toggle\<close> it is drawn with the icon of switches; with the
  service \<^verbatim>\<open>light.toggle\<close> it is drawn with the icon of lights.
\<close>

theorem default_icon_follows_service:
  "map (\<lambda>d. img_icon (snd d))
     (deck (snd (update_key_image plain_env 0 (Button\<lparr>entity_id := Some ''light.kitchen''\<rparr>) False
        (init_world\<lparr>store := [JStr ''light.kitchen'' \<mapsto> entity_record ''light.kitchen'' ''on'']\<rparr>))))
     = [NoIcon]
   \<and> map (\<lambda>d. img_icon (snd d))
     (deck (snd (update_key_image plain_env 0
        (Button\<lparr>entity_id := Some ''light.kitchen'', service := Some ''switch.toggle''\<rparr>) False
        (init_world\<lparr>store := [JStr ''light.kitchen'' \<mapsto> entity_record ''light.kitchen'' ''on'']\<rparr>))))
     = [IconMdi ''power-socket-eu'']
   \<and> map (\<lambda>d. img_icon (snd d))
     (deck (snd (update_key_image plain_env 0
        (Button\<lparr>entity_id := Some ''light.kitchen'', service := Some ''light.toggle''\<rparr>) False
        (init_world\<lparr>store := [JStr ''light.kitchen'' \<mapsto> entity_record ''light.kitchen'' ''on'']\<rparr>))))
     = [IconMdi ''lightbulb'']"
  by (simp add: run_simps)

text \<open>
  C2. A reset while the connection is being set up is retried after \<^verbatim>\<open>asyncio.sleep(5)\<close>,
  with a new connection and a new authentication message. A reset while the body of
  \<^verbatim>\<open>main\<close> waits for a frame is caught in the same way, and the generator connects,
  authenticates and yields again; the context manager answers a second \<^verbatim>\<open>yield\<close> with
  \<^verbatim>\<open>RuntimeError\<close>, so \<^verbatim>\<open>main\<close> ends with that exception and the receive loop is not
  resumed.
\<close>

theorem reset_in_body_ends_main:
  "main plain_env ''secret'' [Button] 1
     [ConnectFails ConnectionResetError,
      Connects [RecvRaises ConnectionResetError],
      Connects [Frame auth_ok, RecvRaises ConnectionResetError],
      Connects [Frame auth_ok, Frame (result_frame 1 [])]]
     init_world
   = (Raised RuntimeError,
      \<lparr> id_counter = 1, store = Map.empty, deck = [],
        wire = [Slept 5,
                Opened, Sent (JObj [(''type'', JStr ''auth''), (''access_token'', JStr ''secret'')]),
                Closed, Slept 5,
                Opened, Sent (JObj [(''type'', JStr ''auth''), (''access_token'', JStr ''secret'')]),
                Sent (JObj [(''type'', JStr ''get_states''), (''id'', JNum 1)]),
                Closed, Slept 5,
                Opened, Sent (JObj [(''type'', JStr ''auth''), (''access_token'', JStr ''secret'')])] \<rparr>)"
  by (simp add: main_def async_with_setup_ws_def setup_ws_athrow_def main_body_def get_states_def
        next_id_def send_def init_world_def auth_ok_def)

lemma wire_ids_snoc: "wire_ids (evs @ [ev]) = wire_ids evs @ (case frame_id ev of None \<Rightarrow> [] | Some i \<Rightarrow> [i])"
  by (simp add: wire_ids_def List.map_filter_def split: option.splits)

lemma send_with_next_id:
  assumes "ids_in_step w" and "map_of items ''id'' = Some (JNum (id_counter w + 1))"
  shows "ids_in_step (send (JObj items) (snd (next_id w)))"
proof -
  from assms(1) have c: "0 \<le> id_counter w"
    and ids: "wire_ids (wire w) = map int [1..<Suc (nat (id_counter w))]"
    and len: "length (wire w) = nat (id_counter w)"
    by (simp_all add: ids_in_step_def)
  from c have n: "nat (id_counter w + 1) = Suc (nat (id_counter w))"
    by simp
  from c have "int (Suc (nat (id_counter w))) = id_counter w + 1"
    by simp
  with assms(2) ids len c n show ?thesis
    by (simp add: ids_in_step_def send_def next_id_def wire_ids_snoc frame_id_def)
qed

lemma subscribe_in_step: "ids_in_step w \<Longrightarrow> ids_in_step (subscribe_state_changes w)"
  using send_with_next_id [of w "[(''type'', JStr ''subscribe_events''),
                      (''event_type'', JStr ''state_changed''),
                      (''id'', JNum (id_counter w + 1))]"]
  by (simp add: subscribe_state_changes_def next_id_def)

lemma unsubscribe_in_step: "ids_in_step w \<Longrightarrow> ids_in_step (unsubscribe sub_id w)"
  using send_with_next_id [of w "[(''id'', JNum (id_counter w + 1)),
                      (''type'', JStr ''unsubscribe_events''),
                      (''subscription'', JNum sub_id)]"]
  by (simp add: unsubscribe_def next_id_def)

lemma call_service_in_step: "ids_in_step w \<Longrightarrow> ids_in_step (snd (call_service srv data w))"
proof (cases "count_list srv (CHR ''.'') = 1")
  case False
  assume "ids_in_step w"
  with call_service_other [OF False, of data w] show ?thesis
    by simp
next
  case True
  assume inv: "ids_in_step w"
  from call_service_one_dot [OF True, of data w] obtain d s where
    "call_service srv data w =
               (Inr (), w\<lparr>id_counter := id_counter w + 1,
                          wire := wire w @
                            [Sent (JObj [(''id'', JNum (id_counter w + 1)),
                                         (''type'', JStr ''call_service''),
                                         (''domain'', JStr d),
                                         (''service'', JStr s),
                                         (''service_data'', JObj data)])]\<rparr>)"
    by blast
  with send_with_next_id [OF inv, of "[(''id'', JNum (id_counter w + 1)),
                                    (''type'', JStr ''call_service''),
                                    (''domain'', JStr d),
                                    (''service'', JStr s),
                                    (''service_data'', JObj data)]"]
  show ?thesis
    by (simp add: send_def next_id_def)
qed

lemma get_states_loop_in_step:
  "ids_in_step w \<Longrightarrow> ids_in_step (snd (get_states_loop i ins w))"
proof (induction i ins w rule: get_states_loop.induct)
  case (4 sub_id data ins w)
  then show ?case
    by (auto simp: unsubscribe_in_step split: sum.splits)
qed simp_all

lemma get_states_in_step: "ids_in_step w \<Longrightarrow> ids_in_step (snd (get_states ins w))"
proof -
  assume inv: "ids_in_step w"
  from send_with_next_id [OF inv, of "[(''type'', JStr ''get_states''), (''id'', JNum (id_counter w + 1))]"]
  have "ids_in_step (send (JObj [(''type'', JStr ''get_states''), (''id'', JNum (id_counter w + 1))])
                       (snd (next_id w)))"
    by simp
  from get_states_loop_in_step [OF this] show ?thesis
    by (simp add: get_states_def next_id_def)
qed

lemma perform_in_step: "ids_in_step w \<Longrightarrow> ids_in_step (perform r w)"
  by (cases r)
     (simp_all add: get_states_in_step subscribe_in_step unsubscribe_in_step call_service_in_step)

lemma perform_all_in_step: "ids_in_step w \<Longrightarrow> ids_in_step (perform_all rs w)"
  by (induction rs arbitrary: w) (simp_all add: perform_in_step)

lemma init_world_in_step: "ids_in_step init_world"
  by (simp add: ids_in_step_def init_world_def wire_ids_def List.map_filter_def)

text \<open>
  C9. Starting from the initial state of the module, \<open>n\<close> successive calls of the id
  generator return exactly 1, 2, ..., \<open>n\<close>: a strictly increasing sequence without
  repetition. After any run of \<^verbatim>\<open>get_states\<close>, \<^verbatim>\<open>subscribe_state_changes\<close>,
  \<^verbatim>\<open>unsubscribe\<close> and \<^verbatim>\<open>call_service\<close> from that state, every frame sent carries an id,
  and the ids on the wire are 1, 2, ... in the order of sending, up to the number of
  frames sent: no two requests share an id.
\<close>

theorem next_id_sequence:
  "fst (next_ids n init_world) = map int [1..<Suc n]
   \<and> sorted_wrt (<) (fst (next_ids n init_world))
   \<and> distinct (fst (next_ids n init_world))
   \<and> wire_ids (wire (perform_all rs init_world)) = map int [1..<Suc (length (wire (perform_all rs init_world)))]
   \<and> length (wire_ids (wire (perform_all rs init_world))) = length (wire (perform_all rs init_world))
   \<and> sorted_wrt (<) (wire_ids (wire (perform_all rs init_world)))
   \<and> distinct (wire_ids (wire (perform_all rs init_world)))
   \<and> id_counter (perform_all rs init_world) = int (length (wire (perform_all rs init_world)))"
proof -
  let ?w = "perform_all rs init_world"
  have inc: "sorted_wrt (<) (map int [1..<Suc m])" for m
    by (simp add: sorted_wrt_map del: upt_Suc)
  have dis: "distinct (map int [1..<Suc m])" for m
    by (simp add: distinct_map del: upt_Suc)
  have g1: "fst (next_ids n init_world) = map int [1..<Suc n]"
    by (simp add: next_ids_from init_world_def del: upt_Suc)
  have g2: "sorted_wrt (<) (fst (next_ids n init_world))"
    unfolding g1 by (rule inc)
  have g3: "distinct (fst (next_ids n init_world))"
    unfolding g1 by (rule dis)
  from perform_all_in_step [OF init_world_in_step, of rs]
  have c: "0 \<le> id_counter ?w"
    and ids: "wire_ids (wire ?w) = map int [1..<Suc (nat (id_counter ?w))]"
    and len: "length (wire ?w) = nat (id_counter ?w)"
    by (simp_all add: ids_in_step_def del: upt_Suc)
  from ids have w1: "wire_ids (wire ?w) = map int [1..<Suc (length (wire ?w))]"
    unfolding len .
  have w2: "length (wire_ids (wire ?w)) = length (wire ?w)"
    unfolding w1 by (simp del: upt_Suc)
  have w3: "sorted_wrt (<) (wire_ids (wire ?w))"
    unfolding w1 by (rule inc)
  have w4: "distinct (wire_ids (wire ?w))"
    unfolding w1 by (rule dis)
  from c len have w5: "id_counter ?w = int (length (wire ?w))"
    by simp
  from g1 g2 g3 w1 w2 w3 w4 w5 show ?thesis
    by blast
qed

theorem next_id_sequence_witness:
  "fst (next_ids 3 init_world) = [1, 2, 3]
   \<and> wire_ids (wire (perform_all
        [GetStates [Frame auth_ok, Frame (result_frame 1 [])], SubscribeStateChanges,
         CallService ''light'' [], CallService ''light.toggle'' [], Unsubscribe 3] init_world))
      = [1, 2, 3, 4, 5]
   \<and> id_counter (perform_all
        [GetStates [Frame auth_ok, Frame (result_frame 1 [])], SubscribeStateChanges,
         CallService ''light'' [], CallService ''light.toggle'' [], Unsubscribe 3] init_world) = 5"
proof -
  let ?rs = "[GetStates [Frame auth_ok, Frame (result_frame 1 [])], SubscribeStateChanges,
         CallService ''light'' [], CallService ''light.toggle'' [], Unsubscribe 3]"
  have l: "length (wire (perform_all ?rs init_world)) = 5"
    by (simp add: get_states_def subscribe_state_changes_def unsubscribe_def call_service_def
          next_id_def send_def init_world_def auth_ok_def result_frame_def py_getitem_def py_iter_def)
  have u: "[1..<Suc 3] = [1, 2, 3]" "[1..<Suc 5] = [1, 2, 3, 4, 5]"
    by (simp_all add: upt_rec)
  note t = next_id_sequence [of 3 ?rs, unfolded l u]
  from t have "fst (next_ids 3 init_world) = [1, 2, 3]"
    by simp
  moreover from t have "wire_ids (wire (perform_all ?rs init_world)) = [1, 2, 3, 4, 5]"
    by simp
  moreover from t have "id_counter (perform_all ?rs init_world) = 5"
    by simp
  ultimately show ?thesis
    by blast
qed

end
